theory Spec2Isabelle
  imports Complex_Main
begin

section \<open>Module constants\<close>

definition MAX_SECS :: nat where "MAX_SECS = 10"
definition BITDEPTH :: nat where "BITDEPTH = 16"
definition N_CHANNELS :: nat where "N_CHANNELS = 1"
definition SAMPLE_RATE :: nat where "SAMPLE_RATE = 16000"

section \<open>Python floats\<close>

text \<open>
  A Python float is an IEEE 754 binary64 number and every arithmetic operation on floats
  returns the binary64 number nearest to the exact result, ties going to the even
  significand. The values are modelled as the rationals they denote; \<open>double x\<close> is the
  binary64 number nearest to \<open>x\<close>, for \<open>x\<close> in the normal range (no overflow, no
  subnormals), which holds every quantity this program computes from a frame count or a
  row count below \<open>2 ^ 1000\<close>.
\<close>

fun bits :: "nat \<Rightarrow> nat" where
  "bits n = (if n = 0 then 0 else Suc (bits (n div 2)))"

declare bits.simps [simp del]

text \<open>\<open>ilog2 x\<close> is the exponent \<open>e\<close> with \<open>2 ^ e \<le> x < 2 ^ (e + 1)\<close>, for \<open>0 < x\<close>.\<close>

definition ilog2 :: "rat \<Rightarrow> int" where
  "ilog2 x = (if 1 \<le> x then int (bits (nat \<lfloor>x\<rfloor>)) - 1
              else - int (bits (nat (\<lceil>1 / x\<rceil> - 1))))"

definition pow2 :: "int \<Rightarrow> rat" where
  "pow2 e = (if 0 \<le> e then 2 ^ nat e else 1 / 2 ^ nat (- e))"

definition round_half_even :: "rat \<Rightarrow> int" where
  "round_half_even y =
     (let f = \<lfloor>y\<rfloor>; d = y - of_int f
      in if d < 1 / 2 then f else if 1 / 2 < d then f + 1
         else if even f then f else f + 1)"

definition double_pos :: "rat \<Rightarrow> rat" where
  "double_pos x =
     (let ulp = pow2 (ilog2 x - 52) in of_int (round_half_even (x / ulp)) * ulp)"

definition double :: "rat \<Rightarrow> rat" where
  "double x = (if x = 0 then 0 else if x < 0 then - double_pos (- x) else double_pos x)"

text \<open>
  Arithmetic on floats. \<open>fdiv\<close> is also Python's \<open>int / int\<close>, which returns the
  correctly rounded quotient; \<open>float_of_int\<close> is the conversion an int operand of a mixed
  operation undergoes (exact below \<open>2 ^ 53\<close>).
\<close>

definition fmul :: "rat \<Rightarrow> rat \<Rightarrow> rat" where
  "fmul a b = double (a * b)"

definition fdiv :: "rat \<Rightarrow> rat \<Rightarrow> rat" where
  "fdiv a b = double (a / b)"

definition float_of_int :: "int \<Rightarrow> rat" where
  "float_of_int n = double (of_int n)"

text \<open>The float literals \<open>0.10\<close> and \<open>0.80\<close>.\<close>

definition DEV_PERCENTAGE :: rat where "DEV_PERCENTAGE = double (10 / 100)"
definition TRAIN_PERCENTAGE :: rat where "TRAIN_PERCENTAGE = double (80 / 100)"

section \<open>Strings and paths\<close>

text \<open>
  A \<open>string\<close> stands for a Python \<open>str\<close>, one \<open>char\<close> per character. \<open>strip\<close> is
  \<open>str.strip()\<close>: it removes the leading and trailing characters for which
  \<open>str.isspace\<close> holds (tab to carriage return, the separators 28 to 31, space, NEL and
  the no-break space, in the range a \<open>char\<close> covers).
\<close>

definition isspace :: "char \<Rightarrow> bool" where
  "isspace c =
     (let n = (of_char c :: nat)
      in (9 \<le> n \<and> n \<le> 13) \<or> (28 \<le> n \<and> n \<le> 32) \<or> n = 133 \<or> n = 160)"

definition strip :: "string \<Rightarrow> string" where
  "strip t = rev (dropWhile isspace (rev (dropWhile isspace t)))"

text \<open>\<open>os.path\<close> on POSIX: \<open>basename\<close>, \<open>dirname\<close>, \<open>join\<close> and \<open>splitext\<close>.\<close>

definition basename :: "string \<Rightarrow> string" where
  "basename p = rev (takeWhile (\<lambda>c. c \<noteq> CHR ''/'') (rev p))"

definition rstrip_sep :: "string \<Rightarrow> string" where
  "rstrip_sep p = rev (dropWhile (\<lambda>c. c = CHR ''/'') (rev p))"

definition dirname :: "string \<Rightarrow> string" where
  "dirname p =
     (let head = take (length p - length (basename p)) p
      in if rstrip_sep head = [] then head else rstrip_sep head)"

definition path_join :: "string \<Rightarrow> string \<Rightarrow> string" where
  "path_join a b =
     (if b \<noteq> [] \<and> hd b = CHR ''/'' then b
      else if a = [] \<or> last a = CHR ''/'' then a @ b
      else a @ ''/'' @ b)"

text \<open>
  \<open>splitext\<close> cuts at the last dot of the last component, unless every character
  before that dot in the component is a dot too.
\<close>

definition splitext :: "string \<Rightarrow> string \<times> string" where
  "splitext p =
     (let name = basename p;
          ext = rev (takeWhile (\<lambda>c. c \<noteq> CHR ''.'') (rev name));
          stem = take (length name - length ext - 1) name
      in if CHR ''.'' \<in> set name \<and> (\<exists>c \<in> set stem. c \<noteq> CHR ''.'')
         then (take (length p - length ext - 1) p, CHR ''.'' # ext)
         else (p, []))"

section \<open>Errors\<close>

text \<open>
  The exceptions the program can raise. \<open>OSError\<close> stands for every failure of a file
  system call (\<open>FileNotFoundError\<close>, \<open>NotADirectoryError\<close>, \<open>IsADirectoryError\<close> and
  \<open>FileExistsError\<close> are its subclasses), \<open>URLError\<close> for every failure of
  \<open>urlretrieve\<close> to get the resource, \<open>SoxError\<close> for every failure of
  \<open>Transformer.build\<close>, and \<open>CalledProcessError\<close> for every failure to get a frame count
  out of \<open>soxi\<close>.
\<close>

datatype error =
    OSError | URLError | SoxError | CalledProcessError
  | AttributeError | TypeError | KeyError | ValueError

section \<open>The file system and the external programs\<close>

text \<open>
  The state outside the Python process: the files and directories, by path, and a log of
  the two expensive external actions, so that a statement can count them. \<open>requests\<close>
  holds the URL of every \<open>urlretrieve\<close> call and \<open>builds\<close> the input file of every sox
  \<open>Transformer.build\<close> call, latest first. A relative path is relative to the working
  directory, which exists; there are no links; paths are compared as text, but for
  trailing slashes and a last component \<open>.\<close> or \<open>..\<close>.
\<close>

datatype node = Dir | File string

record os_state =
  files :: "(string \<times> node) list"
  requests :: "string list"
  builds :: "string list"

definition lookup :: "os_state \<Rightarrow> string \<Rightarrow> node option" where
  "lookup s p = map_of (files s) p"

definition put :: "string \<Rightarrow> node \<Rightarrow> os_state \<Rightarrow> os_state" where
  "put p n s = s\<lparr>files := (p, n) # filter (\<lambda>e. fst e \<noteq> p) (files s)\<rparr>"

text \<open>
  Whether a path names a directory: the empty path never does; a path of slashes alone
  (the root) and a bare \<open>.\<close> or \<open>..\<close> (the working directory and its parent) always
  do; a path that ends in a component \<open>.\<close> or \<open>..\<close> does when the path before that
  component does; any other path does when the file system has a directory under it,
  trailing slashes aside.
\<close>

datatype dir_answer = Always | Never | Needs string

function dir_test :: "string \<Rightarrow> dir_answer" where
  "dir_test p =
     (let q = rstrip_sep p
      in if q = [] then (if p = [] then Never else Always)
         else if basename q = ''.'' \<or> basename q = ''..''
         then (if dirname q = [] then Always else dir_test (dirname q))
         else Needs q)"
  by pat_completeness auto
termination
proof (relation "measure length")
  show "wf (measure length)" by simp
next
  fix p q :: string
  assume q: "q = rstrip_sep p" and dots: "basename q = ''.'' \<or> basename q = ''..''"
  have a: "length (rstrip_sep p) \<le> length p"
    unfolding rstrip_sep_def using length_dropWhile_le [of _ "rev p"] by simp
  have b: "length (basename q) \<le> length q"
    unfolding basename_def using length_takeWhile_le [of _ "rev q"] by simp
  have c: "length (rstrip_sep (take (length q - length (basename q)) q))
             \<le> length q - length (basename q)"
    unfolding rstrip_sep_def
    using length_dropWhile_le [of _ "rev (take (length q - length (basename q)) q)"] by simp
  have d: "length (dirname q) \<le> length q - length (basename q)"
    unfolding dirname_def Let_def using c by simp
  have e: "0 < length (basename q)" using dots by auto
  from b d e have "length (dirname q) < length q" by linarith
  with a q show "(dirname q, p) \<in> measure length" by simp
qed

declare dir_test.simps [simp del]

definition is_dir :: "os_state \<Rightarrow> string \<Rightarrow> bool" where
  "is_dir s p =
     (case dir_test p of
        Always \<Rightarrow> True
      | Never \<Rightarrow> False
      | Needs k \<Rightarrow> lookup s k = Some Dir)"

definition path_exists :: "os_state \<Rightarrow> string \<Rightarrow> bool" where
  "path_exists s p = (case lookup s p of Some (File c) \<Rightarrow> True | _ \<Rightarrow> is_dir s p)"

definition parent_ok :: "os_state \<Rightarrow> string \<Rightarrow> bool" where
  "parent_ok s p = (dirname p = [] \<or> is_dir s (dirname p))"

definition os_mkdir :: "string \<Rightarrow> os_state \<Rightarrow> (error + unit) \<times> os_state" where
  "os_mkdir p s =
     (if rstrip_sep p = [] \<or> path_exists s p \<or> lookup s (rstrip_sep p) \<noteq> None
         \<or> \<not> parent_ok s (rstrip_sep p)
      then (Inl OSError, s)
      else (Inr (), put (rstrip_sep p) Dir s))"

text \<open>Opening \<open>p\<close> for writing and writing \<open>content\<close>: creates or replaces the file.\<close>

definition write_file :: "string \<Rightarrow> string \<Rightarrow> os_state \<Rightarrow> (error + unit) \<times> os_state" where
  "write_file p content s =
     (if p = [] \<or> last p = CHR ''/'' \<or> is_dir s p \<or> \<not> parent_ok s p
      then (Inl OSError, s)
      else (Inr (), put p (File content) s))"

record csv_row =
  audio_url :: string
  csv_transcript :: string
  audio_length :: rat

record raw_row =
  wav_filename :: string
  wav_filesize :: nat
  transcript :: string

text \<open>
  What a server does with a request: it does not answer (no connection, an HTTP error
  such as 404), and \<open>urlretrieve\<close> raises before it opens the target file; or the
  transfer breaks off after a part of the body (a timeout, a short read), and
  \<open>urlretrieve\<close> raises with that part in the target file; or it serves the body.
\<close>

datatype response = Unreachable | Broken string | Body string

definition fails :: "response \<Rightarrow> bool" where
  "fails r = (case r of Body content \<Rightarrow> False | _ \<Rightarrow> True)"

text \<open>
  What the program calls and does not define: the web server behind \<open>urlretrieve\<close>
  (\<open>urlopen u\<close> is its response to a request for \<open>u\<close>), sox
  (\<open>sox_convert c\<close> is the wav it makes of the audio \<open>c\<close> at 16 kHz, one channel, 16 bit;
  \<open>None\<close> when it fails), soxi (\<open>soxi_s c\<close> is the number of frames \<open>soxi -s\<close> prints for
  \<open>c\<close>; \<open>None\<close> when it exits with an error), \<open>util.text.validate_label\<close>, the shuffle
  \<open>DataFrame.sample(frac=1)\<close> draws, the text \<open>DataFrame.to_csv\<close> renders, the size
  \<open>stat\<close> reports for a directory, and the positions of the rows that swifter tries a
  function on before it applies it to all rows.
\<close>

record world =
  urlopen :: "string \<Rightarrow> response"
  sox_convert :: "string \<Rightarrow> string option"
  soxi_s :: "string \<Rightarrow> nat option"
  validate_label :: "string \<Rightarrow> string option"
  sample :: "raw_row list \<Rightarrow> raw_row list"
  csv_text :: "raw_row list \<Rightarrow> string"
  dir_size :: nat
  sampled :: "nat list"

definition getsize :: "world \<Rightarrow> os_state \<Rightarrow> string \<Rightarrow> error + nat" where
  "getsize w s p =
     (case lookup s p of
        Some (File c) \<Rightarrow> Inr (length c)
      | _ \<Rightarrow> if is_dir s p then Inr (dir_size w) else Inl OSError)"

text \<open>\<open>int(subprocess.check_output(['soxi', '-s', p]))\<close>.\<close>

definition soxi :: "world \<Rightarrow> os_state \<Rightarrow> string \<Rightarrow> error + nat" where
  "soxi w s p =
     (case lookup s p of
        Some (File c) \<Rightarrow>
          (case soxi_s w c of None \<Rightarrow> Inl CalledProcessError | Some frames \<Rightarrow> Inr frames)
      | _ \<Rightarrow> Inl CalledProcessError)"

definition urlretrieve ::
  "world \<Rightarrow> string \<Rightarrow> string \<Rightarrow> os_state \<Rightarrow> (error + unit) \<times> os_state" where
  "urlretrieve w url filename s =
     (let s1 = s\<lparr>requests := url # requests s\<rparr>
      in case urlopen w url of
           Unreachable \<Rightarrow> (Inl URLError, s1)
         | Broken part \<Rightarrow>
             (case write_file filename part s1 of
                (Inl e, s2) \<Rightarrow> (Inl e, s2)
              | (Inr u, s2) \<Rightarrow> (Inl URLError, s2))
         | Body content \<Rightarrow> write_file filename content s1)"

text \<open>\<open>Transformer().convert(...).build(input, output)\<close>.\<close>

definition sox_build ::
  "world \<Rightarrow> string \<Rightarrow> string \<Rightarrow> os_state \<Rightarrow> (error + unit) \<times> os_state" where
  "sox_build w input output s =
     (let s1 = s\<lparr>builds := input # builds s\<rparr>
      in case lookup s1 input of
           Some (File c) \<Rightarrow>
             (case sox_convert w c of
                None \<Rightarrow> (Inl SoxError, s1)
              | Some wav \<Rightarrow>
                  (case write_file output wav s1 of
                     (Inl e, s2) \<Rightarrow> (Inl SoxError, s2)
                   | (Inr u, s2) \<Rightarrow> (Inr u, s2)))
         | _ \<Rightarrow> (Inl SoxError, s1))"

text \<open>
  \<open>Path(d).glob('**/*.mp3')\<close>: every path below \<open>d\<close>, at any depth, whose last component
  ends in \<open>.mp3\<close>, which is to say the path does.
\<close>

definition glob_mp3 :: "os_state \<Rightarrow> string \<Rightarrow> string list" where
  "glob_mp3 s d =
     (let root = rstrip_sep d @ ''/''
      in [p \<leftarrow> map fst (files s).
            take (length root) p = root \<and> length root < length p
            \<and> drop (length p - 4) p = ''.mp3''])"

text \<open>
  A \<open>for\<close> loop, and the calls of an \<open>apply\<close> along the rows: \<open>f\<close> on each row of a
  sequence, in order; the first exception ends the whole call.
\<close>

fun apply_rows ::
  "('r \<Rightarrow> os_state \<Rightarrow> (error + 'b) \<times> os_state) \<Rightarrow> 'r list \<Rightarrow> os_state
     \<Rightarrow> (error + 'b list) \<times> os_state" where
  "apply_rows f [] s = (Inr [], s)"
| "apply_rows f (r # rs) s =
     (case f r s of
        (Inl e, s1) \<Rightarrow> (Inl e, s1)
      | (Inr y, s1) \<Rightarrow>
          (case apply_rows f rs s1 of
             (Inl e, s2) \<Rightarrow> (Inl e, s2)
           | (Inr ys, s2) \<Rightarrow> (Inr (y # ys), s2)))"

fun map_rows :: "('r \<Rightarrow> error + 'b) \<Rightarrow> 'r list \<Rightarrow> error + 'b list" where
  "map_rows f [] = Inr []"
| "map_rows f (r # rs) =
     (case f r of
        Inl e \<Rightarrow> Inl e
      | Inr y \<Rightarrow> (case map_rows f rs of Inl e \<Rightarrow> Inl e | Inr ys \<Rightarrow> Inr (y # ys)))"

text \<open>
  \<open>df.swifter.apply(f, axis=1)\<close>, on a frame with rows, does more than call \<open>f\<close> on each
  row. It first tries \<open>f\<close> on the frame as a whole, to see whether \<open>f\<close> can take one; in
  the lambdas of this program \<open>*arg\<close> then unpacks the labels of the columns, and the
  method is called on the strings \<open>audio_url\<close>, \<open>transcript\<close> and \<open>audio_length\<close>. An
  error of that call which tells swifter that \<open>f\<close> cannot take a frame is dropped (the
  \<open>ValueError\<close> of \<open>urlretrieve\<close> on a string that is no URL is one); any other error
  (an \<open>OSError\<close> is one) ends the apply. Then swifter calls \<open>f\<close> on rows it picks, to
  time it, and only then on all rows. \<open>swifter_rows\<close> is the sequence of the rows \<open>f\<close> is
  called on: the picked ones, then all. When swifter hands the rows to several workers
  the order is not even that; no statement proved below rests on the order.
\<close>

definition swifter_rows :: "world \<Rightarrow> 'r list \<Rightarrow> 'r list" where
  "swifter_rows w df = [df ! i. i \<leftarrow> sampled w, i < length df] @ df"

section \<open>GramVaaniDownloader\<close>

definition pre_download :: "string \<Rightarrow> os_state \<Rightarrow> (error + string) \<times> os_state" where
  "pre_download dir s =
     (let mp3_directory = path_join dir ''mp3''
      in case (if \<not> path_exists s dir then os_mkdir dir s else (Inr (), s)) of
           (Inl e, s1) \<Rightarrow> (Inl e, s1)
         | (Inr _, s1) \<Rightarrow>
             (case (if \<not> path_exists s1 mp3_directory then os_mkdir mp3_directory s1
                    else (Inr (), s1)) of
                (Inl e, s2) \<Rightarrow> (Inl e, s2)
              | (Inr _, s2) \<Rightarrow> (Inr mp3_directory, s2)))"

text \<open>
  The method \<open>_download\<close>, on the three columns of a row and the mp3 directory;
  \<open>mp3_filename\<close> is its local of that name.
\<close>

definition mp3_filename :: "string \<Rightarrow> string \<Rightarrow> string" where
  "mp3_filename mp3_directory url = path_join mp3_directory (basename url)"

definition download_row ::
  "world \<Rightarrow> string \<Rightarrow> string \<Rightarrow> rat \<Rightarrow> string \<Rightarrow> os_state \<Rightarrow> (error + unit) \<times> os_state" where
  "download_row w url text seconds mp3_directory s =
     (if \<not> path_exists s (mp3_filename mp3_directory url)
      then urlretrieve w url (mp3_filename mp3_directory url) s
      else (Inr (), s))"

text \<open>
  \<open>download\<close>. The call of \<open>_download\<close> on the labels of the columns changes nothing
  and raises nothing that gets through: if there is no file \<open>audio_url\<close> in the mp3
  directory, \<open>urlretrieve\<close> rejects the string \<open>audio_url\<close> before it sends a request or
  opens a file, and swifter drops the error; if there is one, the call does nothing.
\<close>

definition download ::
  "world \<Rightarrow> string \<Rightarrow> csv_row list \<Rightarrow> os_state \<Rightarrow> (error + string) \<times> os_state" where
  "download w dir data s =
     (case pre_download dir s of
        (Inl e, s1) \<Rightarrow> (Inl e, s1)
      | (Inr mp3_directory, s1) \<Rightarrow>
          (case apply_rows
                  (\<lambda>arg. download_row w (audio_url arg) (csv_transcript arg)
                            (audio_length arg) mp3_directory) (swifter_rows w data) s1 of
             (Inl e, s2) \<Rightarrow> (Inl e, s2)
           | (Inr _, s2) \<Rightarrow> (Inr mp3_directory, s2)))"

section \<open>GramVaaniConverter\<close>

definition pre_convert :: "string \<Rightarrow> os_state \<Rightarrow> (error + string) \<times> os_state" where
  "pre_convert dir s =
     (let wav_dir = path_join dir ''wav''
      in case (if \<not> path_exists s dir then os_mkdir dir s else (Inr (), s)) of
           (Inl e, s1) \<Rightarrow> (Inl e, s1)
         | (Inr _, s1) \<Rightarrow>
             (case (if \<not> path_exists s1 wav_dir then os_mkdir wav_dir s1
                    else (Inr (), s1)) of
                (Inl e, s2) \<Rightarrow> (Inl e, s2)
              | (Inr _, s2) \<Rightarrow> (Inr wav_dir, s2)))"

text \<open>
  The body of the loop of \<open>convert\<close>, for one mp3 file; \<open>wav_file\<close> is its local
  \<open>wav_filename\<close>.
\<close>

definition wav_file :: "string \<Rightarrow> string \<Rightarrow> string" where
  "wav_file wav_dir mp3 = path_join wav_dir (fst (splitext (basename mp3)) @ ''.wav'')"

definition convert_file ::
  "world \<Rightarrow> string \<Rightarrow> string \<Rightarrow> os_state \<Rightarrow> (error + unit) \<times> os_state" where
  "convert_file w wav_dir mp3 s =
     (if \<not> path_exists s (wav_file wav_dir mp3) then sox_build w mp3 (wav_file wav_dir mp3) s
      else (Inr (), s))"

definition convert ::
  "world \<Rightarrow> string \<Rightarrow> string \<Rightarrow> os_state \<Rightarrow> (error + string) \<times> os_state" where
  "convert w dir mp3_directory s =
     (case pre_convert dir s of
        (Inl e, s1) \<Rightarrow> (Inl e, s1)
      | (Inr wav_dir, s1) \<Rightarrow>
          (case apply_rows (convert_file w wav_dir) (glob_mp3 s1 mp3_directory) s1 of
             (Inl e, s2) \<Rightarrow> (Inl e, s2)
           | (Inr _, s2) \<Rightarrow> (Inr wav_dir, s2)))"

section \<open>GramVaaniDataSets\<close>

text \<open>A DataFrame is the list of its rows, in index order.\<close>

record datasets =
  directory :: string
  wav_directory :: string
  csv_data :: "csv_row list"
  raw :: "raw_row list"
  valid :: "raw_row list"
  train :: "raw_row list"
  dev :: "raw_row list"
  test :: "raw_row list"

text \<open>The constructor \<open>__init__\<close>.\<close>

definition init :: "string \<Rightarrow> string \<Rightarrow> csv_row list \<Rightarrow> datasets" where
  "init dir wav_dir gram_vaani_csv =
     \<lparr>directory = dir, wav_directory = wav_dir, csv_data = gram_vaani_csv,
      raw = [], valid = [], train = [], dev = [], test = []\<rparr>"

text \<open>The local \<open>wav_relative_filename\<close> of \<open>_convert_csv_data_to_raw_data_impl\<close>.\<close>

definition wav_relative_filename :: "string \<Rightarrow> string" where
  "wav_relative_filename url =
     (let mp3 = basename url
      in path_join ''wav'' (fst (splitext (basename mp3)) @ ''.wav''))"

definition convert_csv_data_to_raw_data_impl ::
  "world \<Rightarrow> os_state \<Rightarrow> datasets \<Rightarrow> string \<Rightarrow> string \<Rightarrow> rat \<Rightarrow> error + raw_row" where
  "convert_csv_data_to_raw_data_impl w s self url text seconds =
     (case getsize w s (path_join (directory self) (wav_relative_filename url)) of
        Inl e \<Rightarrow> Inl e
      | Inr filesize \<Rightarrow>
          (let label = (case validate_label w text of None \<Rightarrow> [] | Some t \<Rightarrow> t)
           in Inr \<lparr>wav_filename = wav_relative_filename url, wav_filesize = filesize,
                   transcript = label\<rparr>))"

text \<open>
  \<open>_convert_csv_data_to_raw_data\<close>. On a frame with rows the method is first called on
  the labels of the columns, and \<open>path.getsize\<close> looks for \<open>wav/audio_url.wav\<close>: the
  \<open>OSError\<close> it raises when there is no such file ends the apply (the third label is
  not a number, and the method does not look at its third argument). The rows of the
  result are those of the pass over all rows, the last calls.
\<close>

definition convert_csv_data_to_raw_data ::
  "world \<Rightarrow> os_state \<Rightarrow> datasets \<Rightarrow> error + datasets" where
  "convert_csv_data_to_raw_data w s self =
     (case (if csv_data self = [] then None
            else (case convert_csv_data_to_raw_data_impl w s self
                         ''audio_url'' ''transcript'' 0 of
                    Inl e \<Rightarrow> Some e
                  | Inr row \<Rightarrow> None)) of
        Some e \<Rightarrow> Inl e
      | None \<Rightarrow>
          (case map_rows
                  (\<lambda>arg. convert_csv_data_to_raw_data_impl w s self
                            (audio_url arg) (csv_transcript arg) (audio_length arg))
                  (swifter_rows w (csv_data self)) of
             Inl e \<Rightarrow> Inl e
           | Inr rows \<Rightarrow>
               Inr (self\<lparr>raw := drop (length rows - length (csv_data self)) rows\<rparr>)))"

text \<open>
  An argument of \<open>_is_row_invalid\<close> is the value of one row (a \<open>str\<close> or an \<open>int\<close>) or,
  as \<open>create\<close> calls it, a whole column: a pandas \<open>Series\<close>. A \<open>Series\<close> has no
  attribute \<open>strip\<close> (its string methods are under \<open>.str\<close>), so \<open>transcript.strip()\<close>
  raises \<open>AttributeError\<close> on one, and \<open>path.join\<close> raises \<open>TypeError\<close> on one.
\<close>

datatype 'a pandas_arg = Scalar 'a | Series "'a list"

definition is_row_invalid ::
  "world \<Rightarrow> os_state \<Rightarrow> datasets \<Rightarrow> string pandas_arg \<Rightarrow> nat pandas_arg
     \<Rightarrow> string pandas_arg \<Rightarrow> error + bool" where
  "is_row_invalid w s self filename filesize text =
     (case text of
        Series col \<Rightarrow> Inl AttributeError
      | Scalar t \<Rightarrow>
          if strip t = [] then Inr True
          else
            (case filename of
               Series col \<Rightarrow> Inl TypeError
             | Scalar f \<Rightarrow>
                 (case soxi w s (path_join (directory self) f) of
                    Inl e \<Rightarrow> Inl e
                  | Inr frames \<Rightarrow>
                      if \<lfloor>fdiv (fdiv (fmul (fdiv (of_nat frames) (of_nat SAMPLE_RATE)) 1000) 10) 2\<rfloor>
                           < int (length t)
                      then Inr True
                      else if of_nat MAX_SECS < fdiv (of_nat frames) (of_nat SAMPLE_RATE)
                      then Inr True
                      else Inr False)))"

text \<open>The method \<open>_calculate_data_set_sizes\<close>, on the frame \<open>self.valid\<close>.\<close>

definition calculate_data_set_sizes :: "'a list \<Rightarrow> int \<times> int \<times> int" where
  "calculate_data_set_sizes valid_rows =
     (let total_size = int (length valid_rows);
          dev_size = \<lfloor>fmul (float_of_int total_size) DEV_PERCENTAGE\<rfloor>;
          train_size = \<lfloor>fmul (float_of_int total_size) TRAIN_PERCENTAGE\<rfloor>;
          test_size = total_size - (train_size + dev_size)
      in (train_size, dev_size, test_size))"

text \<open>
  \<open>df.loc[a:b]\<close> on a frame whose index is \<open>0, 1, ..., len(df) - 1\<close> (as after
  \<open>reset_index(drop=True)\<close>): a slice by label, which takes the rows whose label lies
  between \<open>a\<close> and \<open>b\<close>, both ends included.
\<close>

definition loc :: "'a list \<Rightarrow> int \<Rightarrow> int \<Rightarrow> 'a list" where
  "loc df a b = map snd [e \<leftarrow> enumerate 0 df. a \<le> int (fst e) \<and> int (fst e) \<le> b]"

text \<open>
  The last three statements of \<open>create\<close>, from the shuffled frame \<open>valid\<close>: the sizes and
  the three slices, which \<open>create\<close> binds to the local names \<open>train\<close>, \<open>dev\<close> and \<open>test\<close>.
\<close>

definition split_valid :: "'a list \<Rightarrow> 'a list \<times> 'a list \<times> 'a list" where
  "split_valid valid_rows =
     (case calculate_data_set_sizes valid_rows of
        (train_size, dev_size, test_size) \<Rightarrow>
          (loc valid_rows 0 train_size,
           loc valid_rows train_size (train_size + dev_size),
           loc valid_rows (train_size + dev_size) (train_size + dev_size + test_size)))"

text \<open>
  \<open>create\<close> from the statement after the filter on: the shuffle is stored in
  \<open>self.valid\<close>, the slices are locals and are dropped when \<open>create\<close> returns.
\<close>

definition create_tail :: "world \<Rightarrow> datasets \<Rightarrow> datasets" where
  "create_tail w self =
     (let self1 = self\<lparr>valid := sample w (valid self)\<rparr>;
          locals = split_valid (valid self1)
      in self1)"

text \<open>
  \<open>self.raw[m]\<close> and \<open>self.raw.drop(....index)\<close> for a mask \<open>m\<close>: with a list of booleans,
  one per row, the rows where it is false are kept; with one boolean, \<open>self.raw[m]\<close>
  looks for a column of that name and raises \<open>KeyError\<close>.
\<close>

definition drop_masked :: "raw_row list \<Rightarrow> bool pandas_arg \<Rightarrow> error + raw_row list" where
  "drop_masked df m =
     (case m of
        Scalar b \<Rightarrow> Inl KeyError
      | Series bs \<Rightarrow> Inr (map fst [e \<leftarrow> zip df bs. \<not> snd e]))"

text \<open>
  \<open>create\<close>. The object is returned with the exception, if any, since its attributes
  keep what was assigned before the exception was raised. The filter calls
  \<open>_is_row_invalid\<close> once, on the three columns of \<open>self.raw\<close>, and indexes \<open>self.raw\<close>
  with what it returns; the statements after the filter are in \<open>create_tail\<close>.
\<close>

definition create :: "world \<Rightarrow> os_state \<Rightarrow> datasets \<Rightarrow> error option \<times> datasets" where
  "create w s self =
     (case convert_csv_data_to_raw_data w s self of
        Inl e \<Rightarrow> (Some e, self)
      | Inr self1 \<Rightarrow>
          (case is_row_invalid w s self1 (Series (map wav_filename (raw self1)))
                  (Series (map wav_filesize (raw self1)))
                  (Series (map transcript (raw self1))) of
             Inl e \<Rightarrow> (Some e, self1)
           | Inr m \<Rightarrow>
               (case drop_masked (raw self1) (Scalar m) of
                  Inl e \<Rightarrow> (Some e, self1)
                | Inr rows \<Rightarrow> (None, create_tail w (self1\<lparr>valid := rows\<rparr>)))))"

text \<open>
  The first argument \<open>to_csv\<close> is given: a path, or the module \<open>os.path\<close> (the name
  \<open>path\<close> of \<open>from os import path\<close>), which is neither a path nor an object with a
  \<open>write\<close> method; pandas raises \<open>ValueError\<close> (invalid file path or buffer object
  type) on it before it opens anything.
\<close>

datatype path_or_buf = PathString string | PathModule

definition to_csv ::
  "world \<Rightarrow> raw_row list \<Rightarrow> path_or_buf \<Rightarrow> os_state \<Rightarrow> (error + unit) \<times> os_state" where
  "to_csv w dataframe target s =
     (case target of
        PathString p \<Rightarrow> write_file p (csv_text w dataframe) s
      | PathModule \<Rightarrow> (Inl ValueError, s))"

text \<open>\<open>getattr(self, dataset)\<close>, for the attributes that are frames.\<close>

definition getattr_frame :: "datasets \<Rightarrow> string \<Rightarrow> error + raw_row list" where
  "getattr_frame self name =
     (if name = ''train'' then Inr (train self)
      else if name = ''dev'' then Inr (dev self)
      else if name = ''test'' then Inr (test self)
      else if name = ''raw'' then Inr (raw self)
      else if name = ''valid'' then Inr (valid self)
      else Inl AttributeError)"

text \<open>The method \<open>_save\<close>: it computes \<open>dataset_path\<close> and passes \<open>path\<close> to \<open>to_csv\<close>.\<close>

definition save_dataset ::
  "world \<Rightarrow> datasets \<Rightarrow> string \<Rightarrow> os_state \<Rightarrow> (error + unit) \<times> os_state" where
  "save_dataset w self dataset s =
     (let dataset_path = path_join (directory self) (dataset @ ''.csv'')
      in case getattr_frame self dataset of
           Inl e \<Rightarrow> (Inl e, s)
         | Inr dataframe \<Rightarrow> to_csv w dataframe PathModule s)"

definition save :: "world \<Rightarrow> datasets \<Rightarrow> os_state \<Rightarrow> (error + unit list) \<times> os_state" where
  "save w self s = apply_rows (save_dataset w self) [''train'', ''dev'', ''test''] s"

section \<open>A small manifest\<close>

text \<open>
  Three rows; a world where every retrieval and every conversion succeeds, every wav has
  64320 frames and \<open>validate_label\<close> and the shuffle change nothing; the same world with
  the second row's URL unreachable; a world where the network and sox are down; and a
  disk with nothing on it.
\<close>

definition row_a :: csv_row where
  "row_a = \<lparr>audio_url = ''http://h.org/a.mp3'', csv_transcript = ''hello'', audio_length = 2\<rparr>"

definition row_b :: csv_row where
  "row_b = \<lparr>audio_url = ''http://h.org/b.mp3'', csv_transcript = ''good day'', audio_length = 3\<rparr>"

definition row_c :: csv_row where
  "row_c = \<lparr>audio_url = ''http://h.org/c.mp3'', csv_transcript = ''bye'', audio_length = 1\<rparr>"

definition online :: world where
  "online =
     \<lparr>urlopen = (\<lambda>u. Body ''ID3''), sox_convert = (\<lambda>c. Some ''RIFF''),
      soxi_s = (\<lambda>c. Some 64320), validate_label = Some, sample = (\<lambda>rows. rows),
      csv_text = (\<lambda>rows. []), dir_size = 4096, sampled = []\<rparr>"

definition b_unreachable :: world where
  "b_unreachable =
     online\<lparr>urlopen :=
       (\<lambda>u. if u = ''http://h.org/b.mp3'' then Unreachable else Body ''ID3'')\<rparr>"

text \<open>That world again, with swifter trying the rows at the given positions first.\<close>

definition b_unreachable_trying :: "nat list \<Rightarrow> world" where
  "b_unreachable_trying positions = b_unreachable\<lparr>sampled := positions\<rparr>"

definition offline :: world where
  "offline = online\<lparr>urlopen := (\<lambda>u. Unreachable), sox_convert := (\<lambda>c. None)\<rparr>"

definition empty_disk :: os_state where
  "empty_disk = \<lparr>files = [], requests = [], builds = []\<rparr>"

text \<open>A disk that holds the wav of the first row and no other.\<close>

definition disk_a :: os_state where
  "disk_a =
     \<lparr>files = [(''out/wav/a.wav'', File ''RIFF''), (''out/wav'', Dir), (''out'', Dir)],
      requests = [], builds = []\<rparr>"

section \<open>Evaluating floats\<close>

lemma round_half_even_near:
  assumes "of_int m - 1 / 2 < y" "y < of_int m + 1 / 2"
  shows "round_half_even y = m"
proof (cases "of_int m \<le> y")
  case True
  with assms have f: "\<lfloor>y\<rfloor> = m" by (simp add: floor_eq_iff)
  with assms show ?thesis by (simp add: round_half_even_def Let_def)
next
  case False
  with assms have f: "\<lfloor>y\<rfloor> = m - 1" by (simp add: floor_eq_iff)
  with assms False show ?thesis by (simp add: round_half_even_def Let_def)
qed

lemma double_eval:
  assumes "1 \<le> x" "\<lfloor>x\<rfloor> = n" "bits (nat n) = k" "e = int k - 1 - 52"
    and "of_int m - 1 / 2 < x / pow2 e" "x / pow2 e < of_int m + 1 / 2"
    and "y = of_int m * pow2 e"
  shows "double x = y"
proof -
  have "ilog2 x - 52 = e" using assms(1-4) by (simp add: ilog2_def)
  moreover have "x \<noteq> 0" "\<not> x < 0" using assms(1) by auto
  ultimately show ?thesis
    using assms(5-7) by (simp add: double_def double_pos_def Let_def round_half_even_near)
qed

lemma double_eval_small:
  assumes "0 < x" "x < 1" "\<lceil>1 / x\<rceil> = n" "bits (nat (n - 1)) = k" "e = - int k - 52"
    and "of_int m - 1 / 2 < x / pow2 e" "x / pow2 e < of_int m + 1 / 2"
    and "y = of_int m * pow2 e"
  shows "double x = y"
proof -
  have "ilog2 x - 52 = e" using assms(1-5) by (simp add: ilog2_def)
  moreover have "x \<noteq> 0" "\<not> x < 0" using assms(1) by auto
  ultimately show ?thesis
    using assms(6-8) by (simp add: double_def double_pos_def Let_def round_half_even_near)
qed

lemma seconds_64320: "fdiv 64320 16000 = 1131529406376837 / 281474976710656"
  unfolding fdiv_def
  by (rule double_eval [where n = 4 and k = 3 and e = "- 50" and m = 4526117625507348])
     (simp_all add: floor_eq_iff bits.simps pow2_def)

lemma millis_64320: "fmul (1131529406376837 / 281474976710656) 1000 = 8840073487319039 / 2199023255552"
  unfolding fmul_def
  by (rule double_eval [where n = 4019 and k = 12 and e = "- 41" and m = 8840073487319039])
     (simp_all add: floor_eq_iff bits.simps pow2_def)

lemma tenth_64320: "fdiv (8840073487319039 / 2199023255552) 10 = 7072058789855231 / 17592186044416"
  unfolding fdiv_def
  by (rule double_eval [where n = 401 and k = 9 and e = "- 44" and m = 7072058789855231])
     (simp_all add: floor_eq_iff bits.simps pow2_def)

lemma half_64320: "fdiv (7072058789855231 / 17592186044416) 2 = 7072058789855231 / 35184372088832"
  unfolding fdiv_def
  by (rule double_eval [where n = 200 and k = 8 and e = "- 45" and m = 7072058789855231])
     (simp_all add: floor_eq_iff bits.simps pow2_def)

lemma boundary_quotient:
  "\<lfloor>fdiv (fdiv (fmul (fdiv 64320 16000) 1000) 10) 2\<rfloor> = 200"
  by (simp add: seconds_64320 millis_64320 tenth_64320 half_64320 floor_eq_iff)

lemma boundary_seconds: "\<not> 10 < fdiv 64320 16000"
  by (simp add: seconds_64320)

lemma dev_percentage: "DEV_PERCENTAGE = 3602879701896397 / 36028797018963968"
  unfolding DEV_PERCENTAGE_def
  by (rule double_eval_small [where n = 10 and k = 4 and e = "- 56" and m = 7205759403792794])
     (simp_all add: ceiling_eq_iff bits.simps pow2_def)

lemma train_percentage: "TRAIN_PERCENTAGE = 3602879701896397 / 4503599627370496"
  unfolding TRAIN_PERCENTAGE_def
  by (rule double_eval_small [where n = 2 and k = 1 and e = "- 53" and m = 7205759403792794])
     (simp_all add: ceiling_eq_iff bits.simps pow2_def)

lemma float_1000: "float_of_int 1000 = 1000"
  unfolding float_of_int_def
  by (rule double_eval [where n = 1000 and k = 10 and e = "- 43" and m = "1000 * 2 ^ 43"])
     (simp_all add: floor_eq_iff bits.simps pow2_def)

section \<open>Slices by label\<close>

lemma loc_enumerate:
  "map snd [e \<leftarrow> enumerate k df. A \<le> fst e \<and> fst e < B]
     = take (B - max A k) (drop (A - k) df)"
  by (induction df arbitrary: k) (auto simp: take_Cons' drop_Cons' max_def le_Suc_eq)

lemma loc_take_drop:
  assumes "0 \<le> a"
  shows "loc df a b = take (nat (b + 1) - nat a) (drop (nat a) df)"
proof -
  have "(\<lambda>e::nat \<times> 'a. a \<le> int (fst e) \<and> int (fst e) \<le> b)
          = (\<lambda>e. nat a \<le> fst e \<and> fst e < nat (b + 1))"
    using assms by (intro ext) auto
  then show ?thesis
    unfolding loc_def using loc_enumerate [of "nat a" "nat (b + 1)" 0 df] by simp
qed

lemma length_loc:
  "0 \<le> a \<Longrightarrow> length (loc df a b) = min (nat (b + 1) - nat a) (length df - nat a)"
  by (simp add: loc_take_drop min.commute)

text \<open>
  Two adjacent slices by label share the row at their common bound: the last row of
  \<open>loc df 0 t\<close> is the first row of \<open>loc df t (t + d)\<close>.
\<close>

lemma slices_share_a_row:
  assumes "0 \<le> t" "nat t < length df" "0 \<le> d"
  shows "last (loc df 0 t) = df ! nat t" "hd (loc df t (t + d)) = df ! nat t"
proof -
  have "loc df 0 t = take (Suc (nat t)) df"
    using assms(1) by (simp add: loc_take_drop nat_add_distrib)
  then show "last (loc df 0 t) = df ! nat t"
    using assms(2) by (simp add: take_Suc_conv_app_nth)
  have "nat (t + d + 1) - nat t = Suc (nat d)"
    using assms(1,3) by linarith
  then have "loc df t (t + d) = take (Suc (nat d)) (drop (nat t) df)"
    using assms(1) by (simp add: loc_take_drop)
  then show "hd (loc df t (t + d)) = df ! nat t"
    using assms(2) by (simp add: hd_drop_conv_nth take_Suc)
qed

section \<open>The split\<close>

lemma dev_size_1000: "\<lfloor>fmul (float_of_int 1000) DEV_PERCENTAGE\<rfloor> = 100"
proof -
  have "fmul 1000 (3602879701896397 / 36028797018963968) = 100"
    unfolding fmul_def
    by (rule double_eval [where n = 100 and k = 7 and e = "- 46" and m = "100 * 2 ^ 46"])
       (simp_all add: floor_eq_iff bits.simps pow2_def)
  then show ?thesis by (simp add: float_1000 dev_percentage)
qed

lemma train_size_1000: "\<lfloor>fmul (float_of_int 1000) TRAIN_PERCENTAGE\<rfloor> = 800"
proof -
  have "fmul 1000 (3602879701896397 / 4503599627370496) = 800"
    unfolding fmul_def
    by (rule double_eval [where n = 800 and k = 10 and e = "- 43" and m = "800 * 2 ^ 43"])
       (simp_all add: floor_eq_iff bits.simps pow2_def)
  then show ?thesis by (simp add: float_1000 train_percentage)
qed

lemma float_10: "float_of_int 10 = 10"
  unfolding float_of_int_def
  by (rule double_eval [where n = 10 and k = 4 and e = "- 49" and m = "10 * 2 ^ 49"])
     (simp_all add: floor_eq_iff bits.simps pow2_def)

lemma dev_size_10: "\<lfloor>fmul (float_of_int 10) DEV_PERCENTAGE\<rfloor> = 1"
proof -
  have "fmul 10 (3602879701896397 / 36028797018963968) = 1"
    unfolding fmul_def
    by (rule double_eval [where n = 1 and k = 1 and e = "- 52" and m = "2 ^ 52"])
       (simp_all add: floor_eq_iff bits.simps pow2_def)
  then show ?thesis by (simp add: float_10 dev_percentage)
qed

lemma train_size_10: "\<lfloor>fmul (float_of_int 10) TRAIN_PERCENTAGE\<rfloor> = 8"
proof -
  have "fmul 10 (3602879701896397 / 4503599627370496) = 8"
    unfolding fmul_def
    by (rule double_eval [where n = 8 and k = 4 and e = "- 49" and m = "2 ^ 52"])
       (simp_all add: floor_eq_iff bits.simps pow2_def)
  then show ?thesis by (simp add: float_10 train_percentage)
qed

lemma sizes_1000:
  "length valid_rows = 1000 \<Longrightarrow> calculate_data_set_sizes valid_rows = (800, 100, 100)"
  by (simp add: calculate_data_set_sizes_def dev_size_1000 train_size_1000)

text \<open>
  Claim C1 (the three slices are disjoint, cover the valid rows and their lengths add up
  to the number of rows). The slices of \<open>create\<close> do not: on ten valid rows, named here
  by their positions 0 to 9, the sizes are 8, 1 and 1, and the slices by label are rows
  0 to 8, rows 8 to 9 and row 9. Row 8 is in train and in dev, row 9 is in dev and in
  test, and the three lengths add up to 12.
\<close>

theorem split_of_ten_rows:
  "split_valid [0, 1, 2, 3, 4, 5, 6, 7, 8, 9 :: nat]
     = ([0, 1, 2, 3, 4, 5, 6, 7, 8], [8, 9], [9])"
  by (simp add: split_valid_def calculate_data_set_sizes_def dev_size_10 train_size_10
        loc_take_drop)

text \<open>
  Claim C6 (on 1000 valid rows, train has 800 rows, dev 100 and test 100). The sizes
  \<open>_calculate_data_set_sizes\<close> returns are 800, 100 and 100, and the slices \<open>create\<close>
  takes with them have 801, 101 and 100 rows.
\<close>

theorem split_of_1000_rows:
  "length valid_rows = 1000 \<Longrightarrow>
     calculate_data_set_sizes valid_rows = (800, 100, 100) \<and>
     (case split_valid valid_rows of
        (train_rows, dev_rows, test_rows) \<Rightarrow>
          (length train_rows, length dev_rows, length test_rows) = (801, 101, 100))"
  by (simp add: split_valid_def sizes_1000 length_loc)

theorem split_of_1000_rows_witness:
  "length (replicate 1000 (0::nat)) = 1000 \<and>
     calculate_data_set_sizes (replicate 1000 (0::nat)) = (800, 100, 100) \<and>
     (case split_valid (replicate 1000 (0::nat)) of
        (train_rows, dev_rows, test_rows) \<Rightarrow>
          (length train_rows, length dev_rows, length test_rows) = (801, 101, 100))"
  using split_of_1000_rows [of "replicate 1000 (0::nat)"] by simp

text \<open>
  As \<open>create\<close> is written, the filter raises once the rows have been converted: the
  predicate gets columns where it expects the values of one row.
\<close>

lemma convert_only_sets_raw:
  "convert_csv_data_to_raw_data w s self = Inr self1 \<Longrightarrow> \<exists>rows. self1 = self\<lparr>raw := rows\<rparr>"
  unfolding convert_csv_data_to_raw_data_def
  by (cases "csv_data self = []";
      cases "convert_csv_data_to_raw_data_impl w s self ''audio_url'' ''transcript'' 0")
     (auto split: sum.splits)

lemma create_raises_at_filter:
  "convert_csv_data_to_raw_data w s self = Inr self1 \<Longrightarrow>
     create w s self = (Some AttributeError, self1)"
  by (simp add: create_def is_row_invalid_def)

lemma create_raises: "fst (create w s self) \<noteq> None"
  by (simp add: create_def is_row_invalid_def split: sum.splits)

text \<open>
  Claim C10 (\<open>create\<close> leaves the attributes \<open>train\<close>, \<open>dev\<close> and \<open>test\<close> as the
  constructor set them: empty). Whatever \<open>create\<close> does, return or raise, the three
  attributes of the object are what they were before the call; so are they after the
  statements that follow the filter, taken alone, which bind the slices to local names;
  and on a freshly constructed object all three are empty after \<open>create\<close>.
\<close>

theorem create_keeps_partitions:
  "train (snd (create w s self)) = train self \<and>
   dev (snd (create w s self)) = dev self \<and>
   test (snd (create w s self)) = test self \<and>
   train (create_tail w self) = train self \<and>
   dev (create_tail w self) = dev self \<and>
   test (create_tail w self) = test self \<and>
   train (snd (create w s (init d wd csv))) = [] \<and>
   dev (snd (create w s (init d wd csv))) = [] \<and>
   test (snd (create w s (init d wd csv))) = []"
proof -
  have k: "train (snd (create w s x)) = train x \<and> dev (snd (create w s x)) = dev x \<and>
           test (snd (create w s x)) = test x" for x
  proof (cases "convert_csv_data_to_raw_data w s x")
    case (Inl e)
    then show ?thesis by (simp add: create_def)
  next
    case (Inr x1)
    then obtain rows where "x1 = x\<lparr>raw := rows\<rparr>"
      using convert_only_sets_raw by blast
    with create_raises_at_filter [OF Inr] show ?thesis by simp
  qed
  from k [of self] k [of "init d wd csv"] show ?thesis
    by (simp add: create_tail_def init_def Let_def)
qed

section \<open>File names\<close>

lemma basename_no_sep: "CHR ''/'' \<notin> set (basename u)"
  unfolding basename_def
  by (metis (mono_tags, lifting) set_rev set_takeWhileD)

lemma path_join_inj:
  assumes "CHR ''/'' \<notin> set b" "CHR ''/'' \<notin> set c"
  shows "path_join d b = path_join d c \<longleftrightarrow> b = c"
proof -
  have "\<not> (b \<noteq> [] \<and> hd b = CHR ''/'')" "\<not> (c \<noteq> [] \<and> hd c = CHR ''/'')"
    using assms by (auto dest: hd_in_set)
  then show ?thesis by (auto simp: path_join_def)
qed

text \<open>
  Claim C9 (two distinct manifest rows never get the same local file name), as amended:
  two rows get the same local file name exactly when the last components of their URLs
  are equal. Rows whose URLs end in different names are written to different files; rows
  with one URL, or with URLs that end in the same name, are written to the same file.
\<close>

theorem same_file_iff_same_basename:
  "mp3_filename d u1 = mp3_filename d u2 \<longleftrightarrow> basename u1 = basename u2"
  unfolding mp3_filename_def by (rule path_join_inj) (rule basename_no_sep)+

text \<open>
  The claim as it was stated fails: two different rows, with different URLs, and one
  local file name.
\<close>

theorem distinct_rows_one_file:
  "\<lparr>audio_url = ''http://a.org/x.mp3'', csv_transcript = ''one'', audio_length = 1\<rparr>
     \<noteq> \<lparr>audio_url = ''http://b.org/x.mp3'', csv_transcript = ''two'', audio_length = 2\<rparr>
   \<and> mp3_filename ''out/mp3'' ''http://a.org/x.mp3''
     = mp3_filename ''out/mp3'' ''http://b.org/x.mp3''"
  by (simp add: mp3_filename_def basename_def path_join_def)

section \<open>The file system only grows\<close>

lemma map_of_filter_other:
  "q \<noteq> p \<Longrightarrow> map_of (filter (\<lambda>e. fst e \<noteq> p) fs) q = map_of fs q"
  by (induction fs) auto

lemma lookup_put: "lookup (put p n s) q = (if q = p then Some n else lookup s q)"
  by (simp add: lookup_def put_def map_of_filter_other)

lemma lookup_log [simp]:
  "lookup (s\<lparr>requests := r\<rparr>) = lookup s" "lookup (s\<lparr>builds := b\<rparr>) = lookup s"
  by (simp_all add: lookup_def fun_eq_iff)

lemma is_dir_log [simp]:
  "is_dir (s\<lparr>requests := r\<rparr>) = is_dir s" "is_dir (s\<lparr>builds := b\<rparr>) = is_dir s"
  by (simp_all add: is_dir_def fun_eq_iff split: dir_answer.splits)

lemma path_exists_log [simp]:
  "path_exists (s\<lparr>requests := r\<rparr>) = path_exists s"
  "path_exists (s\<lparr>builds := b\<rparr>) = path_exists s"
  by (auto simp: path_exists_def fun_eq_iff split: option.splits node.splits)

lemma parent_ok_log [simp]:
  "parent_ok (s\<lparr>requests := r\<rparr>) = parent_ok s" "parent_ok (s\<lparr>builds := b\<rparr>) = parent_ok s"
  by (simp_all add: parent_ok_def fun_eq_iff)

lemma log_put [simp]:
  "requests (put p n s) = requests s" "builds (put p n s) = builds s"
  by (simp_all add: put_def)

lemma rstrip_sep_idem [simp]: "rstrip_sep (rstrip_sep p) = rstrip_sep p"
  by (simp add: rstrip_sep_def)

lemma lookup_empty_disk [simp]: "lookup empty_disk q = None"
  by (simp add: lookup_def empty_disk_def)

lemma dir_test_key: "dir_test p = Needs k \<Longrightarrow> dir_test k = Needs k"
proof (induction p rule: dir_test.induct)
  case (1 p)
  show ?case
  proof (cases "rstrip_sep p = []")
    case True
    with "1.prems" show ?thesis
      by (simp add: dir_test.simps [of p] split: if_splits)
  next
    case False
    show ?thesis
    proof (cases "basename (rstrip_sep p) = ''.'' \<or> basename (rstrip_sep p) = ''..''")
      case True
      with False "1.prems" have
        "dirname (rstrip_sep p) \<noteq> []" "dir_test (dirname (rstrip_sep p)) = Needs k"
        by (auto simp: dir_test.simps [of p] Let_def split: if_splits)
      with "1.IH" [OF refl False True] show ?thesis by simp
    next
      case plain: False
      with False "1.prems" have "k = rstrip_sep p"
        by (simp add: dir_test.simps [of p] Let_def)
      with False plain show ?thesis
        by (simp add: dir_test.simps [of "rstrip_sep p"] Let_def)
    qed
  qed
qed

lemma is_dir_key: "dir_test q = Needs k \<Longrightarrow> is_dir s k = (lookup s k = Some Dir)"
  by (simp add: is_dir_def dir_test_key)

lemma is_dir_put_file:
  "is_dir (put p (File c) s) q = (is_dir s q \<and> dir_test q \<noteq> Needs p)"
  by (auto simp: is_dir_def lookup_put split: dir_answer.splits)

lemma is_dir_put_dir:
  "is_dir (put p Dir s) q = (is_dir s q \<or> dir_test q = Needs p)"
  by (auto simp: is_dir_def lookup_put split: dir_answer.splits)

lemma exists_after_put_file: "path_exists (put p (File c) s) p"
  by (simp add: path_exists_def lookup_put)

lemma exists_mono_put_file:
  assumes "\<not> is_dir s p" "path_exists s q"
  shows "path_exists (put p (File c) s) q"
proof (cases "q = p")
  case True
  then show ?thesis by (simp add: exists_after_put_file)
next
  case False
  show ?thesis
  proof (cases "is_dir s q")
    case True
    have "dir_test q \<noteq> Needs p"
    proof
      assume k: "dir_test q = Needs p"
      with True have "lookup s p = Some Dir" by (simp add: is_dir_def)
      with is_dir_key [OF k] assms(1) show False by simp
    qed
    with True have "is_dir (put p (File c) s) q" by (simp add: is_dir_put_file)
    then show ?thesis
      by (simp add: path_exists_def split: option.splits node.splits)
  next
    case nd: False
    with assms(2) False show ?thesis
      by (auto simp: path_exists_def lookup_put split: option.splits node.splits)
  qed
qed

lemma absent_after_put_file:
  "q \<noteq> p \<Longrightarrow> \<not> path_exists s q \<Longrightarrow> \<not> path_exists (put p (File c) s) q"
  by (auto simp: path_exists_def lookup_put is_dir_put_file split: option.splits node.splits)

lemma exists_mono_put_dir:
  assumes "lookup s p = None" "path_exists s q"
  shows "path_exists (put p Dir s) q"
proof (cases "is_dir s q")
  case True
  then have "is_dir (put p Dir s) q" by (simp add: is_dir_put_dir)
  then show ?thesis
    by (simp add: path_exists_def split: option.splits node.splits)
next
  case False
  with assms show ?thesis
    by (auto simp: path_exists_def lookup_put split: option.splits node.splits if_splits)
qed

lemma mkdir_target:
  assumes "rstrip_sep p \<noteq> []" "\<not> is_dir s p" "parent_ok s (rstrip_sep p)"
  shows "dir_test p = Needs (rstrip_sep p)"
proof (cases "basename (rstrip_sep p) = ''.'' \<or> basename (rstrip_sep p) = ''..''")
  case True
  with assms(1,2) have
    "dirname (rstrip_sep p) \<noteq> []" "\<not> is_dir s (dirname (rstrip_sep p))"
    by (auto simp: is_dir_def dir_test.simps [of p] Let_def split: if_splits)
  with assms(3) show ?thesis by (simp add: parent_ok_def)
next
  case False
  with assms(1) show ?thesis by (simp add: dir_test.simps [of p] Let_def)
qed

lemma write_file_ok:
  assumes "write_file p c s = (Inr u, s')"
  shows "path_exists s' p" "path_exists s q \<Longrightarrow> path_exists s' q"
    "requests s' = requests s" "builds s' = builds s"
  using assms
  by (auto simp: write_file_def exists_after_put_file exists_mono_put_file split: if_splits)

lemma os_mkdir_ok:
  assumes "os_mkdir p s = (Inr u, s')"
  shows "path_exists s' p" "path_exists s q \<Longrightarrow> path_exists s' q"
proof -
  from assms have
    q: "rstrip_sep p \<noteq> []" and ne: "\<not> path_exists s p" and
    free: "lookup s (rstrip_sep p) = None" and par: "parent_ok s (rstrip_sep p)" and
    s': "s' = put (rstrip_sep p) Dir s"
    by (auto simp: os_mkdir_def split: if_splits)
  from ne have "\<not> is_dir s p"
    by (auto simp: path_exists_def split: option.splits node.splits)
  from mkdir_target [OF q this par] have "is_dir s' p"
    unfolding s' by (simp add: is_dir_put_dir)
  then show "path_exists s' p"
    by (simp add: path_exists_def split: option.splits node.splits)
  show "path_exists s q \<Longrightarrow> path_exists s' q"
    unfolding s' using free by (rule exists_mono_put_dir)
qed

lemma ensure_dir_ok:
  assumes "(if \<not> path_exists s p then os_mkdir p s else (Inr (), s)) = (Inr u, s')"
  shows "path_exists s' p" "path_exists s q \<Longrightarrow> path_exists s' q"
proof -
  show "path_exists s' p"
  proof (cases "path_exists s p")
    case True
    with assms show ?thesis by simp
  next
    case False
    with assms have "os_mkdir p s = (Inr u, s')" by simp
    then show ?thesis by (rule os_mkdir_ok)
  qed
  show "path_exists s q \<Longrightarrow> path_exists s' q"
  proof (cases "path_exists s p")
    case True
    assume "path_exists s q"
    with True assms show ?thesis by simp
  next
    case False
    assume q: "path_exists s q"
    from False assms have "os_mkdir p s = (Inr u, s')" by simp
    from os_mkdir_ok(2) [OF this q] show ?thesis .
  qed
qed

lemma pre_download_ok:
  assumes "pre_download dir s = (Inr d, s')"
  shows "d = path_join dir ''mp3''" "path_exists s' dir" "path_exists s' d"
    "path_exists s q \<Longrightarrow> path_exists s' q"
proof -
  from assms obtain u1 s1 u2 where
    a: "(if \<not> path_exists s dir then os_mkdir dir s else (Inr (), s)) = (Inr u1, s1)" and
    b: "(if \<not> path_exists s1 (path_join dir ''mp3'') then os_mkdir (path_join dir ''mp3'') s1
         else (Inr (), s1)) = (Inr u2, s')" and
    d: "d = path_join dir ''mp3''"
    unfolding pre_download_def Let_def by (auto split: prod.splits sum.splits)
  show "d = path_join dir ''mp3''" by (rule d)
  show "path_exists s' dir" using ensure_dir_ok(1) [OF a] ensure_dir_ok(2) [OF b] by blast
  show "path_exists s' d" unfolding d by (rule ensure_dir_ok(1) [OF b])
  show "path_exists s q \<Longrightarrow> path_exists s' q"
    using ensure_dir_ok(2) [OF a] ensure_dir_ok(2) [OF b] by blast
qed

lemma pre_download_skip:
  "path_exists s dir \<Longrightarrow> path_exists s (path_join dir ''mp3'')
     \<Longrightarrow> pre_download dir s = (Inr (path_join dir ''mp3''), s)"
  by (simp add: pre_download_def)

lemma pre_convert_ok:
  assumes "pre_convert dir s = (Inr d, s')"
  shows "d = path_join dir ''wav''" "path_exists s' dir" "path_exists s' d"
    "path_exists s q \<Longrightarrow> path_exists s' q"
proof -
  from assms obtain u1 s1 u2 where
    a: "(if \<not> path_exists s dir then os_mkdir dir s else (Inr (), s)) = (Inr u1, s1)" and
    b: "(if \<not> path_exists s1 (path_join dir ''wav'') then os_mkdir (path_join dir ''wav'') s1
         else (Inr (), s1)) = (Inr u2, s')" and
    d: "d = path_join dir ''wav''"
    unfolding pre_convert_def Let_def by (auto split: prod.splits sum.splits)
  show "d = path_join dir ''wav''" by (rule d)
  show "path_exists s' dir" using ensure_dir_ok(1) [OF a] ensure_dir_ok(2) [OF b] by blast
  show "path_exists s' d" unfolding d by (rule ensure_dir_ok(1) [OF b])
  show "path_exists s q \<Longrightarrow> path_exists s' q"
    using ensure_dir_ok(2) [OF a] ensure_dir_ok(2) [OF b] by blast
qed

lemma pre_convert_skip:
  "path_exists s dir \<Longrightarrow> path_exists s (path_join dir ''wav'')
     \<Longrightarrow> pre_convert dir s = (Inr (path_join dir ''wav''), s)"
  by (simp add: pre_convert_def)

lemma download_row_ok:
  assumes "download_row w u t a d s = (Inr x, s')"
  shows "path_exists s' (mp3_filename d u)" "path_exists s q \<Longrightarrow> path_exists s' q"
  using assms
  by (auto simp: download_row_def urlretrieve_def Let_def
        split: if_splits response.splits prod.splits sum.splits dest: write_file_ok)

lemma download_row_skip:
  "path_exists s (mp3_filename d u) \<Longrightarrow> download_row w u t a d s = (Inr (), s)"
  by (simp add: download_row_def)

lemma set_swifter_rows [simp]: "set (swifter_rows w df) = set df"
  by (auto simp: swifter_rows_def)

lemma apply_rows_exists:
  assumes step: "\<And>r s y s'. f r s = (Inr y, s') \<Longrightarrow>
      path_exists s' (nm r) \<and> (\<forall>q. path_exists s q \<longrightarrow> path_exists s' q)"
    and run: "apply_rows f rs s = (Inr ys, s')"
  shows "(\<forall>r \<in> set rs. path_exists s' (nm r)) \<and> (\<forall>q. path_exists s q \<longrightarrow> path_exists s' q)"
  using run
proof (induction rs arbitrary: s ys)
  case Nil
  then show ?case by simp
next
  case (Cons r rs)
  from Cons.prems obtain y s1 zs where
    h: "f r s = (Inr y, s1)" and t: "apply_rows f rs s1 = (Inr zs, s')"
    by (auto split: prod.splits sum.splits)
  from step [OF h] Cons.IH [OF t] show ?case by auto
qed

lemma apply_rows_skip:
  assumes skip: "\<And>r s. path_exists s (nm r) \<Longrightarrow> f r s = (Inr (), s)"
    and all: "\<forall>r \<in> set rs. path_exists s (nm r)"
  shows "apply_rows f rs s = (Inr (map (\<lambda>r. ()) rs), s)"
  using all by (induction rs) (auto simp: skip)

lemma apply_rows_append_fail:
  assumes "apply_rows f xs s = (Inr ys, s1)" "f r s1 = (Inl e, s2)"
  shows "apply_rows f (xs @ r # zs) s = (Inl e, s2)"
  using assms
  by (induction xs arbitrary: s ys) (auto split: prod.splits sum.splits)

section \<open>Running a stage again\<close>

lemma download_again:
  assumes "download w dir data s = (Inr d, s1)"
  shows "download w' dir data s1 = (Inr d, s1)"
proof -
  let ?f = "\<lambda>w (arg::csv_row). download_row w (audio_url arg) (csv_transcript arg) (audio_length arg) d"
  from assms obtain d0 s0 ys where
    pre: "pre_download dir s = (Inr d0, s0)" and
    run: "apply_rows (\<lambda>arg. download_row w (audio_url arg) (csv_transcript arg) (audio_length arg) d0) (swifter_rows w data) s0 = (Inr ys, s1)" and
    d: "d = d0"
    unfolding download_def by (auto split: prod.splits sum.splits)
  have run': "apply_rows (?f w) (swifter_rows w data) s0 = (Inr ys, s1)" using run d by simp
  have step: "\<And>r s y s'. ?f w r s = (Inr y, s') \<Longrightarrow>
      path_exists s' (mp3_filename d (audio_url r)) \<and> (\<forall>q. path_exists s q \<longrightarrow> path_exists s' q)"
    using download_row_ok by blast
  have inv: "(\<forall>r \<in> set data. path_exists s1 (mp3_filename d (audio_url r)))
      \<and> (\<forall>q. path_exists s0 q \<longrightarrow> path_exists s1 q)"
    using apply_rows_exists [where f = "?f w" and nm = "\<lambda>r. mp3_filename d (audio_url r)", OF step run']
    by simp
  have dd: "d = path_join dir ''mp3''" using pre_download_ok(1) [OF pre] d by simp
  have "path_exists s1 dir" "path_exists s1 (path_join dir ''mp3'')"
    using pre_download_ok(2,3) [OF pre] inv d dd by auto
  then have pre2: "pre_download dir s1 = (Inr d, s1)"
    using pre_download_skip dd by simp
  have "apply_rows (?f w') (swifter_rows w' data) s1
          = (Inr (map (\<lambda>r. ()) (swifter_rows w' data)), s1)"
    by (rule apply_rows_skip [where nm = "\<lambda>r. mp3_filename d (audio_url r)"])
       (use inv download_row_skip in auto)
  with pre2 show ?thesis unfolding download_def by simp
qed

lemma drop_suffix: "drop (length (a @ b) - length b) (a @ b) = b"
  by simp

lemma path_join_suffix: "\<exists>a. path_join d (x @ ''.wav'') = a @ ''.wav''"
  by (auto simp: path_join_def intro: exI [of _ "[]"] exI [of _ "d @ x"] exI [of _ "d @ ''/'' @ x"])

lemma wav_file_not_mp3: "drop (length (wav_file wd m) - 4) (wav_file wd m) \<noteq> ''.mp3''"
proof -
  obtain a where a: "wav_file wd m = a @ ''.wav''"
    unfolding wav_file_def using path_join_suffix by blast
  show ?thesis unfolding a by simp
qed

lemma glob_mp3_log [simp]:
  "glob_mp3 (s\<lparr>builds := b\<rparr>) d = glob_mp3 s d"
  by (simp add: glob_mp3_def)

lemma filter_filter_same:
  "\<not> P p \<Longrightarrow> filter P (filter (\<lambda>k. k \<noteq> p) ks) = filter P ks"
  by (induction ks) auto

lemma glob_mp3_put:
  assumes "drop (length p - 4) p \<noteq> ''.mp3''"
  shows "glob_mp3 (put p n s) d = glob_mp3 s d"
proof -
  have m: "map fst (filter (\<lambda>e. fst e \<noteq> p) (files s)) = filter (\<lambda>k. k \<noteq> p) (map fst (files s))"
    by (induction "files s") (auto simp: filter_map comp_def)
  show ?thesis
    unfolding glob_mp3_def Let_def put_def using assms
    by (auto simp: m intro!: filter_cong)
qed

lemma apply_rows_keeps:
  assumes step: "\<And>r s y s'. f r s = (Inr y, s') \<Longrightarrow> g s' = g s"
    and run: "apply_rows f rs s = (Inr ys, s')"
  shows "g s' = g s"
  using run
proof (induction rs arbitrary: s ys)
  case Nil
  then show ?case by simp
next
  case (Cons r rs)
  from Cons.prems obtain y s1 zs where
    h: "f r s = (Inr y, s1)" and t: "apply_rows f rs s1 = (Inr zs, s')"
    by (auto split: prod.splits sum.splits)
  from step [OF h] Cons.IH [OF t] show ?case by simp
qed

lemma convert_file_ok:
  assumes "convert_file w wd m s = (Inr x, s')"
  shows "path_exists s' (wav_file wd m)" "path_exists s q \<Longrightarrow> path_exists s' q"
    "glob_mp3 s' d = glob_mp3 s d"
proof -
  show "path_exists s' (wav_file wd m)" "path_exists s q \<Longrightarrow> path_exists s' q"
    using assms
    by (auto simp: convert_file_def sox_build_def Let_def
          split: if_splits option.splits node.splits prod.splits sum.splits dest: write_file_ok)
  show "glob_mp3 s' d = glob_mp3 s d"
    using assms wav_file_not_mp3 [of wd m]
    by (auto simp: convert_file_def sox_build_def Let_def write_file_def glob_mp3_put
          split: if_splits option.splits node.splits prod.splits sum.splits)
qed


lemma convert_again:
  assumes "convert w dir mp3d s = (Inr wd, s1)"
  shows "convert w' dir mp3d s1 = (Inr wd, s1)"
proof -
  from assms obtain wd0 s0 ys where
    pre: "pre_convert dir s = (Inr wd0, s0)" and
    run0: "apply_rows (convert_file w wd0) (glob_mp3 s0 mp3d) s0 = (Inr ys, s1)" and
    d: "wd = wd0"
    unfolding convert_def by (auto split: prod.splits sum.splits)
  have run: "apply_rows (convert_file w wd) (glob_mp3 s0 mp3d) s0 = (Inr ys, s1)"
    using run0 d by simp
  have step: "\<And>r s y s'. convert_file w wd r s = (Inr y, s') \<Longrightarrow>
      path_exists s' (wav_file wd r) \<and> (\<forall>q. path_exists s q \<longrightarrow> path_exists s' q)"
    using convert_file_ok(1,2) by blast
  have inv: "(\<forall>r \<in> set (glob_mp3 s0 mp3d). path_exists s1 (wav_file wd r))
      \<and> (\<forall>q. path_exists s0 q \<longrightarrow> path_exists s1 q)"
    by (rule apply_rows_exists [where f = "convert_file w wd" and nm = "wav_file wd", OF step run])
  have same: "glob_mp3 s1 mp3d = glob_mp3 s0 mp3d"
    by (rule apply_rows_keeps [where f = "convert_file w wd" and g = "\<lambda>s. glob_mp3 s mp3d", OF _ run])
       (rule convert_file_ok(3))
  have dd: "wd = path_join dir ''wav''" using pre_convert_ok(1) [OF pre] d by simp
  have "path_exists s1 dir" "path_exists s1 (path_join dir ''wav'')"
    using pre_convert_ok(2,3) [OF pre] inv d dd by auto
  then have pre2: "pre_convert dir s1 = (Inr wd, s1)"
    using pre_convert_skip dd by simp
  have "apply_rows (convert_file w' wd) (glob_mp3 s1 mp3d) s1
          = (Inr (map (\<lambda>r. ()) (glob_mp3 s1 mp3d)), s1)"
    by (rule apply_rows_skip [where nm = "wav_file wd"])
       (use inv same in \<open>auto simp: convert_file_def\<close>)
  with pre2 show ?thesis unfolding convert_def by simp
qed

section \<open>Runs on the small manifest\<close>

lemmas fs_defs = write_file_def os_mkdir_def path_exists_def is_dir_def dir_test.simps parent_ok_def
  lookup_def put_def path_join_def basename_def dirname_def rstrip_sep_def Let_def

lemmas download_defs = download_def swifter_rows_def pre_download_def download_row_def
  urlretrieve_def
  mp3_filename_def online_def b_unreachable_def b_unreachable_trying_def
  row_a_def row_b_def row_c_def empty_disk_def

lemma first_download:
  "download online ''out'' [row_a] empty_disk =
     (Inr ''out/mp3'',
      \<lparr>files = [(''out/mp3/a.mp3'', File ''ID3''), (''out/mp3'', Dir), (''out'', Dir)],
       requests = [''http://h.org/a.mp3''], builds = []\<rparr>)"
  by (simp add: download_defs fs_defs)

lemma first_convert:
  "convert online ''out'' ''out/mp3''
     \<lparr>files = [(''out/mp3/a.mp3'', File ''ID3''), (''out/mp3'', Dir), (''out'', Dir)],
       requests = [''http://h.org/a.mp3''], builds = []\<rparr> =
     (Inr ''out/wav'',
      \<lparr>files = [(''out/wav/a.wav'', File ''RIFF''), (''out/wav'', Dir),
                (''out/mp3/a.mp3'', File ''ID3''), (''out/mp3'', Dir), (''out'', Dir)],
       requests = [''http://h.org/a.mp3''], builds = [''out/mp3/a.mp3'']\<rparr>)"
  by (simp add: convert_def pre_convert_def convert_file_def sox_build_def glob_mp3_def
        wav_file_def splitext_def online_def fs_defs)

text \<open>
  Claim C3 (the fetch stage and the transcode stage do nothing when they are run again).
  When \<open>download\<close> has returned, a second \<open>download\<close> of the same rows into the same
  directory, on the state the first one left and in any world, returns the same
  directory and leaves that state as it is: no call of \<open>urlretrieve\<close> is added to the
  log and no file changes. When \<open>convert\<close> has returned, a second \<open>convert\<close> leaves the
  state as it is: no call of sox is added to the log.
\<close>

theorem second_run_does_nothing:
  "(download w dir data s = (Inr d, s1) \<longrightarrow>
      download w' dir data s1 = (Inr d, s1) \<and>
      requests (snd (download w' dir data s1)) = requests s1) \<and>
   (convert w dir mp3d t = (Inr wd, t1) \<longrightarrow>
      convert w' dir mp3d t1 = (Inr wd, t1) \<and>
      builds (snd (convert w' dir mp3d t1)) = builds t1)"
  by (simp add: download_again convert_again)

theorem second_run_does_nothing_witness:
  "download online ''out'' [row_a] empty_disk =
     (Inr ''out/mp3'',
      \<lparr>files = [(''out/mp3/a.mp3'', File ''ID3''), (''out/mp3'', Dir), (''out'', Dir)],
       requests = [''http://h.org/a.mp3''], builds = []\<rparr>) \<and>
   download offline ''out'' [row_a]
     \<lparr>files = [(''out/mp3/a.mp3'', File ''ID3''), (''out/mp3'', Dir), (''out'', Dir)],
       requests = [''http://h.org/a.mp3''], builds = []\<rparr> =
     (Inr ''out/mp3'',
      \<lparr>files = [(''out/mp3/a.mp3'', File ''ID3''), (''out/mp3'', Dir), (''out'', Dir)],
       requests = [''http://h.org/a.mp3''], builds = []\<rparr>) \<and>
   convert online ''out'' ''out/mp3''
     \<lparr>files = [(''out/mp3/a.mp3'', File ''ID3''), (''out/mp3'', Dir), (''out'', Dir)],
       requests = [''http://h.org/a.mp3''], builds = []\<rparr> =
     (Inr ''out/wav'',
      \<lparr>files = [(''out/wav/a.wav'', File ''RIFF''), (''out/wav'', Dir),
                (''out/mp3/a.mp3'', File ''ID3''), (''out/mp3'', Dir), (''out'', Dir)],
       requests = [''http://h.org/a.mp3''], builds = [''out/mp3/a.mp3'']\<rparr>) \<and>
   convert offline ''out'' ''out/mp3''
     \<lparr>files = [(''out/wav/a.wav'', File ''RIFF''), (''out/wav'', Dir),
                (''out/mp3/a.mp3'', File ''ID3''), (''out/mp3'', Dir), (''out'', Dir)],
       requests = [''http://h.org/a.mp3''], builds = [''out/mp3/a.mp3'']\<rparr> =
     (Inr ''out/wav'',
      \<lparr>files = [(''out/wav/a.wav'', File ''RIFF''), (''out/wav'', Dir),
                (''out/mp3/a.mp3'', File ''ID3''), (''out/mp3'', Dir), (''out'', Dir)],
       requests = [''http://h.org/a.mp3''], builds = [''out/mp3/a.mp3'']\<rparr>)"
proof -
  let ?s1 = "\<lparr>files = [(''out/mp3/a.mp3'', File ''ID3''), (''out/mp3'', Dir), (''out'', Dir)],
       requests = [''http://h.org/a.mp3''], builds = []\<rparr>"
  let ?t1 = "\<lparr>files = [(''out/wav/a.wav'', File ''RIFF''), (''out/wav'', Dir),
                (''out/mp3/a.mp3'', File ''ID3''), (''out/mp3'', Dir), (''out'', Dir)],
       requests = [''http://h.org/a.mp3''], builds = [''out/mp3/a.mp3'']\<rparr>"
  from first_download first_convert
    second_run_does_nothing [where w = online and dir = "''out''" and data = "[row_a]"
      and s = empty_disk and d = "''out/mp3''" and ?s1.0 = ?s1 and w' = offline
      and mp3d = "''out/mp3''" and t = ?s1 and wd = "''out/wav''" and ?t1.0 = ?t1]
  show ?thesis by simp
qed

lemma download_row_raises:
  assumes "\<not> path_exists s (mp3_filename d u)" "fails (urlopen w u)"
  shows "isl (fst (download_row w u t a d s))"
  using assms
  by (cases "urlopen w u")
     (auto simp: download_row_def urlretrieve_def fails_def Let_def split: prod.splits sum.splits)

lemma download_row_keeps_absent:
  assumes "download_row w u t a d s = (Inr x, s')" "mp3_filename d u \<noteq> f"
    "\<not> path_exists s f"
  shows "\<not> path_exists s' f"
proof (cases "path_exists s (mp3_filename d u)")
  case True
  with assms show ?thesis by (simp add: download_row_def)
next
  case False
  with assms(1) obtain c where
    "write_file (mp3_filename d u) c (s\<lparr>requests := u # requests s\<rparr>) = (Inr x, s')"
    by (auto simp: download_row_def urlretrieve_def Let_def
          split: response.splits prod.splits sum.splits)
  then have "s' = put (mp3_filename d u) (File c) (s\<lparr>requests := u # requests s\<rparr>)"
    by (auto simp: write_file_def split: if_splits)
  with assms(2,3) show ?thesis by (simp add: absent_after_put_file)
qed

lemma rows_raise:
  assumes "row \<in> set order" "mp3_filename d (audio_url row) = f" "\<not> path_exists s f"
    and "\<forall>r \<in> set order. mp3_filename d (audio_url r) = f \<longrightarrow> fails (urlopen w (audio_url r))"
  shows "isl (fst (apply_rows
           (\<lambda>arg. download_row w (audio_url arg) (csv_transcript arg) (audio_length arg) d)
           order s))"
  using assms
proof (induction order arbitrary: s)
  case Nil
  then show ?case by simp
next
  case (Cons r rs)
  let ?call = "download_row w (audio_url r) (csv_transcript r) (audio_length r) d s"
  show ?case
  proof (cases "mp3_filename d (audio_url r) = f")
    case True
    with Cons.prems have "isl (fst ?call)"
      by (intro download_row_raises) auto
    then show ?thesis by (auto split: prod.splits sum.splits)
  next
    case False
    show ?thesis
    proof (cases ?call)
      case (Pair res s1)
      show ?thesis
      proof (cases res)
        case (Inl e)
        with Pair show ?thesis by simp
      next
        case (Inr x)
        with Pair False Cons.prems(3) have "\<not> path_exists s1 f"
          using download_row_keeps_absent by blast
        moreover from False Cons.prems(1,2) have "row \<in> set rs" by auto
        ultimately have "isl (fst (apply_rows
            (\<lambda>arg. download_row w (audio_url arg) (csv_transcript arg) (audio_length arg) d)
            rs s1))"
          using Cons.IH Cons.prems(2,4) by simp
        with Pair Inr show ?thesis by (auto split: prod.splits sum.splits)
      qed
    qed
  qed
qed

lemma download_raises:
  assumes "pre_download dir s = (Inr d, s0)"
    and "row \<in> set data"
    and "\<not> path_exists s0 (mp3_filename d (audio_url row))"
    and "\<forall>r \<in> set data. mp3_filename d (audio_url r) = mp3_filename d (audio_url row)
           \<longrightarrow> fails (urlopen w (audio_url r))"
  shows "isl (fst (download w dir data s))"
proof -
  have a: "row \<in> set (swifter_rows w data)" using assms(2) by simp
  have b: "\<forall>r \<in> set (swifter_rows w data).
      mp3_filename d (audio_url r) = mp3_filename d (audio_url row)
        \<longrightarrow> fails (urlopen w (audio_url r))"
    using assms(4) by simp
  from rows_raise [OF a refl assms(3) b]
  show ?thesis
    unfolding download_def using assms(1) by (auto split: prod.splits sum.splits)
qed

lemma pre_download_out:
  "pre_download ''out'' empty_disk =
     (Inr ''out/mp3'',
      \<lparr>files = [(''out/mp3'', Dir), (''out'', Dir)], requests = [], builds = []\<rparr>)"
  by (simp add: pre_download_def empty_disk_def fs_defs)

lemma mp3_of_rows:
  "mp3_filename ''out/mp3'' (audio_url row_a) = ''out/mp3/a.mp3''"
  "mp3_filename ''out/mp3'' (audio_url row_b) = ''out/mp3/b.mp3''"
  "mp3_filename ''out/mp3'' (audio_url row_c) = ''out/mp3/c.mp3''"
  by (simp_all add: mp3_filename_def row_a_def row_b_def row_c_def basename_def path_join_def)

lemma b_absent:
  "\<not> path_exists \<lparr>files = [(''out/mp3'', Dir), (''out'', Dir)], requests = [], builds = []\<rparr>
       ''out/mp3/b.mp3''"
  by (simp add: fs_defs)

lemma b_fails: "fails (urlopen (b_unreachable_trying ks) (audio_url row_b))"
  by (simp add: fails_def b_unreachable_trying_def b_unreachable_def online_def row_b_def)

lemma others_served:
  "urlopen b_unreachable (audio_url row_a) = Body ''ID3''"
  "urlopen b_unreachable (audio_url row_c) = Body ''ID3''"
  by (simp_all add: b_unreachable_def online_def row_a_def row_c_def)

lemma failed_download:
  "fst (download b_unreachable ''out'' [row_a, row_b, row_c] empty_disk) = Inl URLError"
  "fst (download (b_unreachable_trying [0]) ''out'' [row_a, row_b, row_c] empty_disk)
     = Inl URLError"
  "fst (download (b_unreachable_trying [1]) ''out'' [row_a, row_b, row_c] empty_disk)
     = Inl URLError"
  "fst (download (b_unreachable_trying [2]) ''out'' [row_a, row_b, row_c] empty_disk)
     = Inl URLError"
  by (simp_all add: download_defs fs_defs)

text \<open>
  Which files are on the disk when \<open>download\<close> raises depends on the rows swifter tried
  first: the file of the third row is not there when the rows are taken in the order
  of the manifest, and is there when the third row was tried before the pass. The file
  of the first row is there in the first case and is not when the second row was tried
  before the pass.
\<close>

lemma fetched_before_the_failure:
  "\<not> path_exists (snd (download b_unreachable ''out'' [row_a, row_b, row_c] empty_disk))
       ''out/mp3/c.mp3''"
  "path_exists
     (snd (download (b_unreachable_trying [2]) ''out'' [row_a, row_b, row_c] empty_disk))
     ''out/mp3/c.mp3''"
  "path_exists (snd (download b_unreachable ''out'' [row_a, row_b, row_c] empty_disk))
     ''out/mp3/a.mp3''"
  "\<not> path_exists
       (snd (download (b_unreachable_trying [1]) ''out'' [row_a, row_b, row_c] empty_disk))
       ''out/mp3/a.mp3''"
  by (simp_all add: download_defs fs_defs)

text \<open>
  Claim C4 (a row whose retrieval fails does not abort the batch), as amended: a row
  whose retrieval fails ends the batch. \<open>_download\<close> does not catch what \<open>urlretrieve\<close>
  raises: when the directories are in place, the file of a row of the manifest is not
  on the disk, and the retrieval fails for that row (and for any other row stored under
  the same file name), \<open>download\<close> raises, whichever rows swifter tries first. Which of
  the other rows have been fetched by then depends on that, and nothing is said of it.
\<close>

theorem failed_row_ends_the_batch:
  assumes "pre_download dir s = (Inr d, s0)"
    and "row \<in> set data"
    and "\<not> path_exists s0 (mp3_filename d (audio_url row))"
    and "\<forall>r \<in> set data. mp3_filename d (audio_url r) = mp3_filename d (audio_url row)
           \<longrightarrow> fails (urlopen w (audio_url r))"
  shows "isl (fst (download w dir data s))"
  using assms by (rule download_raises)

theorem failed_row_ends_the_batch_witness:
  "pre_download ''out'' empty_disk =
     (Inr ''out/mp3'',
      \<lparr>files = [(''out/mp3'', Dir), (''out'', Dir)], requests = [], builds = []\<rparr>) \<and>
   row_b \<in> set [row_a, row_b, row_c] \<and>
   \<not> path_exists \<lparr>files = [(''out/mp3'', Dir), (''out'', Dir)], requests = [], builds = []\<rparr>
       (mp3_filename ''out/mp3'' (audio_url row_b)) \<and>
   fails (urlopen (b_unreachable_trying [2]) (audio_url row_b)) \<and>
   isl (fst (download (b_unreachable_trying [2]) ''out'' [row_a, row_b, row_c] empty_disk))"
proof -
  have a: "row_b \<in> set [row_a, row_b, row_c]" by simp
  have b: "\<not> path_exists
       \<lparr>files = [(''out/mp3'', Dir), (''out'', Dir)], requests = [], builds = []\<rparr>
       (mp3_filename ''out/mp3'' (audio_url row_b))"
    using b_absent by (simp add: mp3_of_rows)
  have c: "\<forall>r \<in> set [row_a, row_b, row_c].
      mp3_filename ''out/mp3'' (audio_url r) = mp3_filename ''out/mp3'' (audio_url row_b)
        \<longrightarrow> fails (urlopen (b_unreachable_trying [2]) (audio_url r))"
    by (simp add: mp3_of_rows b_fails)
  from failed_row_ends_the_batch [OF pre_download_out a b c] pre_download_out a b b_fails
  show ?thesis by simp
qed

text \<open>
  The claim as it was stated fails: of three rows the second cannot be retrieved and
  the other two can; \<open>download\<close> raises, whether swifter tries no row before the pass or
  tries the first, the second or the third.
\<close>

theorem failed_row_aborts_download:
  "urlopen b_unreachable (audio_url row_a) = Body ''ID3'' \<and>
   urlopen b_unreachable (audio_url row_c) = Body ''ID3'' \<and>
   fst (download b_unreachable ''out'' [row_a, row_b, row_c] empty_disk) = Inl URLError \<and>
   fst (download (b_unreachable_trying [0]) ''out'' [row_a, row_b, row_c] empty_disk)
     = Inl URLError \<and>
   fst (download (b_unreachable_trying [1]) ''out'' [row_a, row_b, row_c] empty_disk)
     = Inl URLError \<and>
   fst (download (b_unreachable_trying [2]) ''out'' [row_a, row_b, row_c] empty_disk)
     = Inl URLError"
  using others_served failed_download by simp

section \<open>Validation and saving\<close>

lemma getsize_absent: "\<not> path_exists s p \<Longrightarrow> getsize w s p = Inl OSError"
  by (auto simp: getsize_def path_exists_def split: option.splits node.splits)

lemma impl_error:
  "convert_csv_data_to_raw_data_impl w s self u t a = Inl e \<Longrightarrow> e = OSError"
  by (auto simp: convert_csv_data_to_raw_data_impl_def getsize_def Let_def
        split: sum.splits option.splits node.splits if_splits)

lemma map_rows_fail:
  assumes only: "\<And>r e. f r = Inl e \<Longrightarrow> e = e0"
    and "r \<in> set rs" "f r = Inl e0"
  shows "map_rows f rs = Inl e0"
  using assms(2,3)
proof (induction rs)
  case Nil
  then show ?case by simp
next
  case (Cons x xs)
  show ?case
  proof (cases "f x")
    case (Inl e)
    with only show ?thesis by simp
  next
    case (Inr y)
    with Cons have "map_rows f xs = Inl e0" by auto
    with Inr show ?thesis by simp
  qed
qed

lemma create_fails:
  assumes "arg \<in> set (csv_data self)"
    and "\<not> path_exists s (path_join (directory self) (wav_relative_filename (audio_url arg)))"
  shows "create w s self = (Some OSError, self)"
proof -
  let ?f = "\<lambda>arg. convert_csv_data_to_raw_data_impl w s self
                      (audio_url arg) (csv_transcript arg) (audio_length arg)"
  have "?f arg = Inl OSError"
    using assms(2) by (simp add: convert_csv_data_to_raw_data_impl_def getsize_absent)
  moreover have "arg \<in> set (swifter_rows w (csv_data self))" using assms(1) by simp
  ultimately have rows: "map_rows ?f (swifter_rows w (csv_data self)) = Inl OSError"
    using impl_error by (intro map_rows_fail [where f = ?f and r = arg]) auto
  have "convert_csv_data_to_raw_data w s self = Inl OSError"
  proof (cases "convert_csv_data_to_raw_data_impl w s self ''audio_url'' ''transcript'' 0")
    case (Inl e)
    with impl_error [OF Inl] assms(1) show ?thesis
      by (auto simp: convert_csv_data_to_raw_data_def)
  next
    case (Inr row)
    with rows assms(1) show ?thesis by (auto simp: convert_csv_data_to_raw_data_def)
  qed
  then show ?thesis by (simp add: create_def)
qed

lemma wav_of_a: "wav_relative_filename (audio_url row_a) = ''wav/a.wav''"
  by (simp add: row_a_def wav_relative_filename_def splitext_def basename_def path_join_def)

lemma wav_of_b: "wav_relative_filename (audio_url row_b) = ''wav/b.wav''"
  by (simp add: row_b_def wav_relative_filename_def splitext_def basename_def path_join_def)

lemma wav_a_there: "path_exists disk_a (path_join ''out'' ''wav/a.wav'')"
  by (simp add: path_join_def path_exists_def lookup_def disk_a_def)

lemma wav_b_missing: "\<not> path_exists disk_a (path_join ''out'' ''wav/b.wav'')"
  by (simp add: disk_a_def fs_defs)

text \<open>
  Claim C5 (a row whose wav is not on the disk at validation time is left out of the
  valid set and nothing is raised), as amended: a row whose wav is not on the disk ends
  the validation stage. \<open>path.getsize\<close> raises on the missing file, nothing catches it,
  and \<open>create\<close> raises \<open>OSError\<close> (\<open>FileNotFoundError\<close>) with the object as it was
  before the call: no row has been converted and no valid set has been computed.
\<close>

theorem missing_wav_ends_create:
  assumes "arg \<in> set (csv_data self)"
    and "\<not> path_exists s (path_join (directory self) (wav_relative_filename (audio_url arg)))"
  shows "create w s self = (Some OSError, self)"
  using assms by (rule create_fails)

theorem missing_wav_ends_create_witness:
  "row_b \<in> set (csv_data (init ''out'' ''out/wav'' [row_a, row_b])) \<and>
   \<not> path_exists disk_a
       (path_join (directory (init ''out'' ''out/wav'' [row_a, row_b]))
          (wav_relative_filename (audio_url row_b))) \<and>
   create online disk_a (init ''out'' ''out/wav'' [row_a, row_b])
     = (Some OSError, init ''out'' ''out/wav'' [row_a, row_b])"
proof -
  have a: "row_b \<in> set (csv_data (init ''out'' ''out/wav'' [row_a, row_b]))"
    by (simp add: init_def)
  have b: "\<not> path_exists disk_a
       (path_join (directory (init ''out'' ''out/wav'' [row_a, row_b]))
          (wav_relative_filename (audio_url row_b)))"
    using wav_b_missing by (simp add: wav_of_b init_def)
  from missing_wav_ends_create [OF a b] a b show ?thesis by simp
qed

text \<open>
  The claim as it was stated fails: of two rows, the wav of the first is on the disk and
  the wav of the second is not; \<open>create\<close> raises, and the valid set is still empty: the
  first row is not in it.
\<close>

theorem missing_wav_raises:
  "path_exists disk_a (path_join ''out'' (wav_relative_filename (audio_url row_a))) \<and>
   \<not> path_exists disk_a (path_join ''out'' (wav_relative_filename (audio_url row_b))) \<and>
   fst (create online disk_a (init ''out'' ''out/wav'' [row_a, row_b])) = Some OSError \<and>
   valid (snd (create online disk_a (init ''out'' ''out/wav'' [row_a, row_b]))) = []"
proof -
  have a: "row_b \<in> set (csv_data (init ''out'' ''out/wav'' [row_a, row_b]))"
    by (simp add: init_def)
  have b: "\<not> path_exists disk_a
       (path_join (directory (init ''out'' ''out/wav'' [row_a, row_b]))
          (wav_relative_filename (audio_url row_b)))"
    using wav_b_missing by (simp add: wav_of_b init_def)
  have "create online disk_a (init ''out'' ''out/wav'' [row_a, row_b])
          = (Some OSError, init ''out'' ''out/wav'' [row_a, row_b])"
    by (rule create_fails [OF a b])
  then show ?thesis
    using wav_a_there wav_b_missing by (simp add: wav_of_a wav_of_b init_def)
qed

lemma soxi_a: "soxi online disk_a (path_join ''out'' ''wav/a.wav'') = Inr 64320"
  by (simp add: soxi_def path_join_def lookup_def disk_a_def online_def)

lemma strip_letters: "strip (replicate 201 (CHR ''a'')) = replicate 201 (CHR ''a'')"
  by (simp add: strip_def isspace_def)

text \<open>
  With 200 letters under the same wav the row is kept: one 20 ms frame per character
  fits in 4.02 seconds, in exact and in binary64 arithmetic alike.
\<close>

lemma strip_letters_200: "strip (replicate 200 (CHR ''a'')) = replicate 200 (CHR ''a'')"
  by (simp add: strip_def isspace_def)

lemma row_below_the_boundary:
  "is_row_invalid online disk_a (init ''out'' ''out/wav'' [])
      (Scalar ''wav/a.wav'') (Scalar 4) (Scalar (replicate 200 (CHR ''a''))) = Inr False"
  by (simp add: is_row_invalid_def strip_letters_200 soxi_a init_def SAMPLE_RATE_def MAX_SECS_def
        boundary_quotient boundary_seconds)

text \<open>
  Claim C2 (the predicate excludes exactly the rows whose transcript is blank, whose
  audio is longer than 10 seconds, or whose duration in milliseconds over 20 is below
  the number of characters). A row the predicate excludes and none of the three
  conditions does: a wav of 64320 frames, which is 4.02 seconds, under a transcript of
  201 letters. The transcript is not blank, 4020 / 20 is 201, which is not below 201,
  and 4.02 is not above 10. In binary64 arithmetic \<open>64320/16000*1000/10/2\<close> is
  200.99999999999997, \<open>int\<close> makes it 200, and 200 is below 201.
\<close>

theorem row_on_the_boundary:
  "is_row_invalid online disk_a (init ''out'' ''out/wav'' [])
      (Scalar ''wav/a.wav'') (Scalar 4) (Scalar (replicate 201 (CHR ''a''))) = Inr True \<and>
   strip (replicate 201 (CHR ''a'')) \<noteq> [] \<and>
   soxi online disk_a (path_join ''out'' ''wav/a.wav'') = Inr 64320 \<and>
   \<not> ((64320 :: rat) / 16000 * 1000 / 20 < of_nat (length (replicate 201 (CHR ''a'')))) \<and>
   \<not> (10 < (64320 :: rat) / 16000)"
  by (simp add: is_row_invalid_def strip_letters soxi_a init_def SAMPLE_RATE_def MAX_SECS_def
        boundary_quotient boundary_seconds)

text \<open>
  Claim C7 (\<open>_save\<close> writes the rows of a partition, under the header, to
  \<open>directory/<name>.csv\<close>). \<open>_save\<close> computes that path and does not use it: it
  hands the module \<open>path\<close> to \<open>to_csv\<close>, which raises. For each of the three names the
  call raises and the disk is as it was; for any name at all the disk is as it was.
\<close>

theorem save_dataset_raises:
  "save_dataset w self ''train'' s = (Inl ValueError, s) \<and>
   save_dataset w self ''dev'' s = (Inl ValueError, s) \<and>
   save_dataset w self ''test'' s = (Inl ValueError, s) \<and>
   snd (save_dataset w self dataset s) = s"
  by (simp add: save_dataset_def getattr_frame_def to_csv_def split: sum.splits)

text \<open>
  Claim C8 (a manifest that was written reads back as the same rows). No manifest is
  written: \<open>save\<close> raises at the first partition and leaves the disk as it was, so on an
  empty disk there is no \<open>train.csv\<close>, \<open>dev.csv\<close> or \<open>test.csv\<close> to read back.
\<close>

theorem no_manifest_after_save:
  "save w self s = (Inl ValueError, s) \<and>
   lookup (snd (save w self empty_disk)) (path_join (directory self) ''train.csv'') = None \<and>
   lookup (snd (save w self empty_disk)) (path_join (directory self) ''dev.csv'') = None \<and>
   lookup (snd (save w self empty_disk)) (path_join (directory self) ''test.csv'') = None"
  by (simp add: save_def save_dataset_def getattr_frame_def to_csv_def)

end
